theory Spec2Isabelle
  imports Complex_Main "HOL-Library.Sublist"
begin

section \<open>Python strings\<close>

text \<open>
  A Python \<open>str\<close> is modelled as a \<open>string\<close> whose characters are the code points
  below 256. On that range \<open>str.lower\<close> maps \<open>A..Z\<close> and the upper-case letters
  \<open>U+00C0..U+00DE\<close> (without the multiplication sign \<open>U+00D7\<close>) to the code point 32
  above, and leaves every other character alone; \<open>str.strip()\<close> removes the characters
  that \<open>str.isspace\<close> accepts: \<open>U+0009..U+000D\<close>, \<open>U+001C..U+0020\<close>, \<open>U+0085\<close>, \<open>U+00A0\<close>.
\<close>

definition py_lower_char :: "char \<Rightarrow> char" where
  "py_lower_char c =
     (let n = (of_char c :: nat)
      in if (65 \<le> n \<and> n \<le> 90) \<or> (192 \<le> n \<and> n \<le> 222 \<and> n \<noteq> 215)
         then char_of (n + 32) else c)"

definition py_lower :: "string \<Rightarrow> string" where
  "py_lower s = map py_lower_char s"

definition py_isspace :: "char \<Rightarrow> bool" where
  "py_isspace c =
     (let n = (of_char c :: nat)
      in (9 \<le> n \<and> n \<le> 13) \<or> (28 \<le> n \<and> n \<le> 32) \<or> n = 133 \<or> n = 160)"

definition py_strip :: "string \<Rightarrow> string" where
  "py_strip s = rev (dropWhile py_isspace (rev (dropWhile py_isspace s)))"

text \<open>
  \<open>split_first sep s\<close> finds the leftmost occurrence of \<open>sep\<close> in \<open>s\<close> and returns what
  stands before and after it. Python's \<open>sep in s\<close>, \<open>s.split(sep, 1)\<close> and
  \<open>s.rsplit(sep, 1)\<close> are read off it; the separators of this program are non-empty
  constants, so the \<open>ValueError\<close> of an empty separator does not arise.
\<close>

fun split_first :: "string \<Rightarrow> string \<Rightarrow> (string \<times> string) option" where
  "split_first sep [] = (if sep = [] then Some ([], []) else None)"
| "split_first sep (c # cs) =
     (if prefix sep (c # cs) then Some ([], drop (length sep) (c # cs))
      else (case split_first sep cs of
              None \<Rightarrow> None
            | Some (a, b) \<Rightarrow> Some (c # a, b)))"

definition py_contains :: "string \<Rightarrow> string \<Rightarrow> bool" where
  "py_contains sub s = (split_first sub s \<noteq> None)"

definition py_split1 :: "string \<Rightarrow> string \<Rightarrow> string list" where
  "py_split1 sep s =
     (case split_first sep s of None \<Rightarrow> [s] | Some (a, b) \<Rightarrow> [a, b])"

definition py_rsplit1 :: "string \<Rightarrow> string \<Rightarrow> string list" where
  "py_rsplit1 sep s =
     (case split_first (rev sep) (rev s) of
        None \<Rightarrow> [s]
      | Some (a, b) \<Rightarrow> [rev b, rev a])"

text \<open>The slice \<open>s[-n:]\<close>: the last \<open>n\<close> elements, all of \<open>s\<close> when it is shorter
  (and all of \<open>s\<close> for \<open>n = 0\<close>, where \<open>-0\<close> is the start).\<close>

definition py_last_n :: "nat \<Rightarrow> 'a list \<Rightarrow> 'a list" where
  "py_last_n n s = (if n = 0 then s else drop (length s - n) s)"

section \<open>The application controller (ui/app.py)\<close>

subsection \<open>Streaming a reply into the transcript\<close>

text \<open>
  The loop of \<open>get_ai_response\<close> over the fragments of the model's reply. Each
  fragment comes with the value \<open>stop_event.is_set()\<close> has when the loop reaches it.
  The state is \<open>full_response\<close> and \<open>answer_box.text\<close>; the result lists, for every call
  of \<open>answer_box.update\<close>, the buffer and the text shown.
\<close>

definition buffer_size :: nat where
  "buffer_size = 1024"

definition assistant_tag :: string where
  "assistant_tag = ''[bold cyan]brother_eye:[/] ''"

fun stream_loop :: "string \<Rightarrow> string \<Rightarrow> (bool \<times> string) list \<Rightarrow> (string \<times> string) list" where
  "stream_loop full_response box_text [] = []"
| "stream_loop full_response box_text ((stop_is_set, thought) # rest) =
     (if stop_is_set then []
      else
        let full1 = full_response @ thought;
            full2 = (if length full1 > buffer_size then py_last_n buffer_size full1 else full1);
            text2 = hd (py_rsplit1 assistant_tag box_text) @ assistant_tag @ full2
        in (full2, text2) # stream_loop full2 text2 rest)"

subsection \<open>Mode flags and the status indicator\<close>

text \<open>
  The status indicator is a widget with a reactive \<open>status\<close> text and a set of style
  classes (\<open>add_class\<close>, \<open>remove_class\<close>). It is composed into the application at start,
  so \<open>query_one(ListeningIndicator)\<close> finds it.
\<close>

record indicator =
  status :: string
  classes :: "string set"

definition remove_class :: "string \<Rightarrow> indicator \<Rightarrow> indicator" where
  "remove_class c w = w\<lparr>classes := classes w - {c}\<rparr>"

definition add_class :: "string \<Rightarrow> indicator \<Rightarrow> indicator" where
  "add_class c w = w\<lparr>classes := insert c (classes w)\<rparr>"

text \<open>
  The arguments a worker thread is started with. \<open>Thread(target=..., args=(...))\<close>
  evaluates the argument tuple when the thread is created: the boolean flags are
  passed as values, the \<open>Event\<close> and the bound methods as references to the
  application. So a worker holds its own copy of the flag it was given and reads
  the stop signal from the application. A wake-word worker is setting up, at the test
  of its loop, inside \<open>listener.listen\<close> waiting for audio, or done; the application
  keeps a handle to the worker it started last.
\<close>

datatype worker_phase = Starting | Looping | Listening | Finished

record wake_worker =
  ww_wake_word :: string
  ww_keywords_path :: string
  ww_detecting_wake_word :: bool
  ww_phase :: worker_phase

record listen_worker =
  lw_should_listen :: bool

record app =
  wake_word :: string
  should_listen :: bool
  detecting_wake_word :: bool
  direct_listening_mode :: bool
  stop_event :: bool
  wake_word_detected_event :: bool
  temp_dir :: "string option"
  keyword_files :: "(string \<times> string) list"
  status_light :: indicator
  wake_word_thread :: "wake_worker option"
  listening_thread :: "listen_worker option"

definition reset_indicator :: "indicator \<Rightarrow> indicator" where
  "reset_indicator w =
     add_class ''idle''
       (remove_class ''wake-word''
         (remove_class ''error''
           (remove_class ''processing''
             (remove_class ''listening'' (w\<lparr>status := ''idle''\<rparr>)))))"

definition stop_all :: "app \<Rightarrow> app" where
  "stop_all s =
     (let s1 = s\<lparr>should_listen := False\<rparr>;
          s2 = s1\<lparr>detecting_wake_word := False\<rparr>;
          s3 = s2\<lparr>direct_listening_mode := False\<rparr>;
          s4 = s3\<lparr>stop_event := True\<rparr>
      in s4\<lparr>status_light := reset_indicator (status_light s4)\<rparr>)"

definition update_status :: "string \<Rightarrow> string \<Rightarrow> app \<Rightarrow> app" where
  "update_status status_text class_name s =
     (let w0 = (status_light s)\<lparr>status := status_text\<rparr>;
          w1 = remove_class ''wake-word''
                 (remove_class ''idle''
                   (remove_class ''error''
                     (remove_class ''processing''
                       (remove_class ''listening'' w0))))
      in s\<lparr>status_light := add_class class_name w1\<rparr>)"

definition status_categories :: "string set" where
  "status_categories = {''idle'', ''listening'', ''processing'', ''error'', ''wake-word''}"

section \<open>The LLM client (services/model.py)\<close>

text \<open>
  A parsed value as this program can observe it: a string, or any other value, given
  by the text that Python's \<open>str()\<close> renders it as. A parsed line is an object (its
  members in the order of the text; \<open>json.loads\<close> keeps the last value of a repeated
  key), an array, a string, or a number, boolean or null.
\<close>

datatype jval = JStr string | JOther string

datatype json = JObject "(string \<times> jval) list" | JArray "jval list" | JString string | JScalar

definition dict_get :: "(string \<times> jval) list \<Rightarrow> string \<Rightarrow> jval option" where
  "dict_get members k = map_of (rev members) k"

datatype py_error =
    OllamaAPIError string
  | TypeError
  | KeyError
  | UnicodeDecodeError

text \<open>
  \<open>k in chunk_data\<close> and \<open>chunk_data[k]\<close> for a string \<open>k\<close>: key membership and lookup on a
  dict, element membership on a list, substring test on a string; a number, boolean
  or null is not iterable, and only a dict can be indexed by a string.
\<close>

fun json_contains :: "string \<Rightarrow> json \<Rightarrow> py_error + bool" where
  "json_contains k (JObject members) = Inr (dict_get members k \<noteq> None)"
| "json_contains k (JArray items) = Inr (JStr k \<in> set items)"
| "json_contains k (JString s) = Inr (py_contains k s)"
| "json_contains k JScalar = Inl TypeError"

fun json_subscript :: "json \<Rightarrow> string \<Rightarrow> py_error + jval" where
  "json_subscript (JObject members) k =
     (case dict_get members k of None \<Rightarrow> Inl KeyError | Some v \<Rightarrow> Inr v)"
| "json_subscript _ k = Inl TypeError"

fun py_format :: "jval \<Rightarrow> string" where
  "py_format (JStr s) = s"
| "py_format (JOther rendering) = rendering"

text \<open>
  A line of \<open>response.iter_lines()\<close>: empty (falsy, passed over); bytes that are not
  UTF-8 (\<open>decode\<close> raises, outside the \<open>try\<close>); text that \<open>json.loads\<close> rejects, with
  the decoder's message; or a parsed value.

  The generator \<open>brain_stream\<close> is modelled by what it does until it ends: the
  fragments it yields and the log records it writes, in order, and how it ends
  (exhausted, or an exception leaving the generator).
\<close>

datatype line = Empty | BadUtf8 | BadJson string | Doc json

datatype event = Yield jval | LogWarning string | LogError string

datatype outcome = Exhausted | Raised py_error

fun brain_stream :: "line list \<Rightarrow> event list \<times> outcome" where
  "brain_stream [] = ([], Exhausted)"
| "brain_stream (Empty # rest) = brain_stream rest"
| "brain_stream (BadUtf8 # rest) = ([], Raised UnicodeDecodeError)"
| "brain_stream (BadJson e # rest) =
     (let (evs, out) = brain_stream rest
      in (LogWarning (''error parsing json response: '' @ e) # evs, out))"
| "brain_stream (Doc chunk_data # rest) =
     (case json_contains ''response'' chunk_data of
        Inl err \<Rightarrow> ([], Raised err)
      | Inr True \<Rightarrow>
          (case json_subscript chunk_data ''response'' of
             Inl err \<Rightarrow> ([], Raised err)
           | Inr v \<Rightarrow> (let (evs, out) = brain_stream rest in (Yield v # evs, out)))
      | Inr False \<Rightarrow>
          (case json_contains ''error'' chunk_data of
             Inl err \<Rightarrow> ([], Raised err)
           | Inr True \<Rightarrow>
               (case json_subscript chunk_data ''error'' of
                  Inl err \<Rightarrow> ([], Raised err)
                | Inr v \<Rightarrow>
                    ([LogError (''ollama api error: '' @ py_format v)],
                     Raised (OllamaAPIError (''ollama api error: '' @ py_format v))))
           | Inr False \<Rightarrow> brain_stream rest))"


subsection \<open>The stream as the specification words it\<close>





section \<open>The location store (services/weather.py, services/intents.py)\<close>

text \<open>
  The file \<open>location_config.json\<close> is absent, or holds text that \<open>json.load\<close> rejects
  (or that cannot be read), or holds a document. \<open>json.dump\<close> writes the document that
  \<open>json.load\<close> reads back. A write can fail when the file is opened (the file is left
  as it was) or while the document is written (the file is left truncated); both are
  caught and reported by the result \<open>False\<close>. The two services define the same two
  functions, each on its own.

  \<open>config.get(k, default)\<close> exists on a dict only; on any other document the
  \<open>AttributeError\<close> is caught with the other exceptions and the default returned.
\<close>

definition DEFAULT_LOCATION :: string where
  "DEFAULT_LOCATION = ''Santa Cruz''"

datatype file_content = Unparseable | Document json

type_synonym config_file = "file_content option"

datatype write_env = WriteOk | OpenFails | DumpFails

definition config_get :: "json \<Rightarrow> string \<Rightarrow> jval \<Rightarrow> jval option" where
  "config_get config k dflt =
     (case config of
        JObject members \<Rightarrow> Some (case dict_get members k of Some v \<Rightarrow> v | None \<Rightarrow> dflt)
      | _ \<Rightarrow> None)"

definition weather_get_saved_location :: "config_file \<Rightarrow> jval" where
  "weather_get_saved_location file =
     (case file of
        None \<Rightarrow> JStr DEFAULT_LOCATION
      | Some Unparseable \<Rightarrow> JStr DEFAULT_LOCATION
      | Some (Document config) \<Rightarrow>
          (case config_get config ''location'' (JStr DEFAULT_LOCATION) of
             Some v \<Rightarrow> v
           | None \<Rightarrow> JStr DEFAULT_LOCATION))"

definition weather_save_location :: "write_env \<Rightarrow> string \<Rightarrow> config_file \<Rightarrow> bool \<times> config_file" where
  "weather_save_location env location file =
     (let config = JObject [(''location'', JStr location)]
      in case env of
           OpenFails \<Rightarrow> (False, file)
         | DumpFails \<Rightarrow> (False, Some Unparseable)
         | WriteOk \<Rightarrow> (True, Some (Document config)))"

definition intents_save_location :: "write_env \<Rightarrow> string \<Rightarrow> config_file \<Rightarrow> bool \<times> config_file" where
  "intents_save_location env location file =
     (let config = JObject [(''location'', JStr location)]
      in case env of
           OpenFails \<Rightarrow> (False, file)
         | DumpFails \<Rightarrow> (False, Some Unparseable)
         | WriteOk \<Rightarrow> (True, Some (Document config)))"

definition intents_get_saved_location :: "config_file \<Rightarrow> jval" where
  "intents_get_saved_location file =
     (case file of
        None \<Rightarrow> JStr DEFAULT_LOCATION
      | Some Unparseable \<Rightarrow> JStr DEFAULT_LOCATION
      | Some (Document config) \<Rightarrow>
          (case config_get config ''location'' (JStr DEFAULT_LOCATION) of
             Some v \<Rightarrow> v
           | None \<Rightarrow> JStr DEFAULT_LOCATION))"

section \<open>The weather service (services/weather.py)\<close>

subsection \<open>Locations in a query\<close>

text \<open>
  The phrase scan of \<open>extract_location\<close>, which \<open>extract_location_from_text\<close> of the
  intent service repeats word for word with its own phrases. The guard
  \<open>phrase in text_lower\<close> makes \<open>split(phrase, 1)\<close> return two parts, so the index
  \<open>[1]\<close> is in range; index \<open>[0]\<close> always is.
\<close>

definition sentence_endings :: "string list" where
  "sentence_endings = [''.'', ''?'', ''!'']"

definition strip_ending :: "string \<Rightarrow> string \<Rightarrow> string" where
  "strip_ending place ending =
     (if py_contains ending place then py_strip (py_split1 ending place ! 0) else place)"

fun scan_phrases :: "string list \<Rightarrow> string \<Rightarrow> string option" where
  "scan_phrases [] text_lower = None"
| "scan_phrases (phrase # rest) text_lower =
     (if py_contains phrase text_lower then
        (let place = py_strip (py_split1 phrase text_lower ! 1);
             place = foldl strip_ending place sentence_endings
         in if place \<noteq> [] then Some place else None)
      else scan_phrases rest text_lower)"

definition weather_location_phrases :: "string list" where
  "weather_location_phrases =
     [''set my location to '',
      ''change my location to '',
      ''my location is '',
      ''weather in '',
      ''temperature in '',
      ''forecast for '',
      ''weather for '',
      ''how's the weather in '',
      ''how is the weather in '',
      ''weather'']"

definition extract_location :: "string \<Rightarrow> string option" where
  "extract_location text =
     (let text_lower = py_lower text
      in scan_phrases weather_location_phrases text_lower)"

subsection \<open>\<open>extract_location\<close> as the specification words it\<close>

text \<open>
  The first phrase of the list found in the lower-cased text; the remainder after
  its leftmost occurrence, cut before the first of \<open>.\<close>, \<open>?\<close>, \<open>!\<close> and trimmed; no value
  when that is empty or when no phrase is found.
\<close>

definition sentence_end :: "char \<Rightarrow> bool" where
  "sentence_end c = (c = CHR ''.'' \<or> c = CHR ''?'' \<or> c = CHR ''!'')"

definition remainder_after :: "string \<Rightarrow> string \<Rightarrow> string" where
  "remainder_after phrase s = (case split_first phrase s of Some (a, b) \<Rightarrow> b | None \<Rightarrow> [])"

definition trimmed_sentence :: "string \<Rightarrow> string option" where
  "trimmed_sentence remainder =
     (let r = py_strip (takeWhile (\<lambda>c. \<not> sentence_end c) remainder)
      in if r = [] then None else Some r)"

definition first_phrase_remainder :: "string list \<Rightarrow> string \<Rightarrow> string option" where
  "first_phrase_remainder phrases s =
     (case find (\<lambda>phrase. py_contains phrase s) phrases of
        None \<Rightarrow> None
      | Some phrase \<Rightarrow> trimmed_sentence (remainder_after phrase s))"

section \<open>The intent detection service (services/intents.py)\<close>

text \<open>
  The spaCy pipeline is outside this program and enters as a parameter: \<open>brain\<close> turns
  a text into a document, \<open>ents\<close> lists a document's named entities (text and label,
  in document order), \<open>similarity\<close> scores two documents. A score is a floating-point
  number, hence a rational; \<open>threshold\<close> is the double written \<open>0.70\<close>.
\<close>

record 'doc nlp =
  brain :: "string \<Rightarrow> 'doc"
  ents :: "'doc \<Rightarrow> (string \<times> string) list"
  similarity :: "'doc \<Rightarrow> 'doc \<Rightarrow> rat"

datatype intent = WEATHER | TIME | LOCATION_SETTING

definition intent_examples :: "(intent \<times> string list) list" where
  "intent_examples =
     [(WEATHER,
        [''what's the weather like'',
         ''how's the weather today'',
         ''is it going to rain'',
         ''what's the temperature outside'',
         ''will it be sunny tomorrow'',
         ''what's the forecast'',
         ''how hot is it today'',
         ''is it cold outside'',
         ''what's the weather in'']),
      (TIME,
        [''what time is it'',
         ''what's the current time'',
         ''tell me the time'',
         ''what's today's date'',
         ''what day is it'',
         ''what month is it'',
         ''what's the date today'',
         ''tell me today's date'',
         ''what year is it'']),
      (LOCATION_SETTING,
        [''set my location to'',
         ''change my location to'',
         ''update my location to'',
         ''my location is'',
         ''i'm in'',
         ''set my location'',
         ''remember my location'',
         ''save my location as''])]"

definition threshold :: rat where
  "threshold = 3152519739159347 / 4503599627370496"

record entities =
  location :: "string option"
  datetime :: "string option"

record detection =
  original_text :: string
  intent :: "intent option"
  confidence :: rat
  all_scores :: "(intent \<times> rat) list"
  best_matching_example :: "string option"
  found_entities :: entities

definition place_entities :: "'doc nlp \<Rightarrow> 'doc \<Rightarrow> string list" where
  "place_entities n doc = [t. (t, label) \<leftarrow> ents n doc, label = ''GPE'' \<or> label = ''LOC'']"

definition extract_entities :: "'doc nlp \<Rightarrow> 'doc \<Rightarrow> entities" where
  "extract_entities n doc =
     (let places = place_entities n doc;
          found_location = (case places of [] \<Rightarrow> None | p # _ \<Rightarrow> Some p);
          found_datetime =
            foldl (\<lambda>found (t, label). if label = ''DATE'' \<or> label = ''TIME'' then Some t else found)
              None (ents n doc)
      in \<lparr>location = found_location, datetime = found_datetime\<rparr>)"

text \<open>\<open>max(xs)\<close> and \<open>xs.index(v)\<close> on the scores of a category, whose example list is
  not empty.\<close>

definition py_max :: "rat list \<Rightarrow> rat" where
  "py_max xs = foldl max (hd xs) (tl xs)"

fun py_index :: "rat list \<Rightarrow> rat \<Rightarrow> nat" where
  "py_index [] v = 0"
| "py_index (x # xs) v = (if x = v then 0 else Suc (py_index xs v))"

definition score_category ::
  "'doc nlp \<Rightarrow> 'doc \<Rightarrow> intent option \<times> rat \<times> string option \<times> (intent \<times> rat) list
     \<Rightarrow> intent \<times> string list
     \<Rightarrow> intent option \<times> rat \<times> string option \<times> (intent \<times> rat) list" where
  "score_category n doc acc category =
     (case (acc, category) of
        ((best_intent, best_score, best_example, scores), (intent_name, examples)) \<Rightarrow>
          let intent_scores = map (\<lambda>ex. similarity n doc (brain n ex)) examples;
              best_intent_score = py_max intent_scores;
              best_example_idx = py_index intent_scores best_intent_score;
              scores = scores @ [(intent_name, best_intent_score)]
          in if best_intent_score > best_score
             then (Some intent_name, best_intent_score, Some (examples ! best_example_idx), scores)
             else (best_intent, best_score, best_example, scores))"

definition detect_intent :: "'doc nlp \<Rightarrow> string \<Rightarrow> detection" where
  "detect_intent n text =
     (let doc = brain n (py_lower text)
      in case foldl (score_category n doc) (None, 0, None, []) intent_examples of
           (best_intent, best_score, best_example, scores) \<Rightarrow>
             \<lparr>original_text = text,
              intent = (if best_score \<ge> threshold then best_intent else None),
              confidence = best_score,
              all_scores = scores,
              best_matching_example = best_example,
              found_entities = extract_entities n doc\<rparr>)"

definition is_location_setting :: "'doc nlp \<Rightarrow> string \<Rightarrow> bool \<times> string option" where
  "is_location_setting n text =
     (let result = detect_intent n text
      in (intent result = Some LOCATION_SETTING, location (found_entities result)))"

definition intent_location_phrases :: "string list" where
  "intent_location_phrases =
     [''set my location to '',
      ''change my location to '',
      ''update my location to '',
      ''my location is '',
      ''i'm in '',
      ''i am in '',
      ''save my location as '']"

definition extract_location_from_text :: "'doc nlp \<Rightarrow> string \<Rightarrow> string option" where
  "extract_location_from_text n text =
     (let doc = brain n text;
          places = place_entities n doc
      in case places of
           p # _ \<Rightarrow> Some p
         | [] \<Rightarrow>
             (let text_lower = py_lower text
              in scan_phrases intent_location_phrases text_lower))"

text \<open>A location is falsy when it is \<open>None\<close> or the empty string.\<close>

definition truthy :: "string option \<Rightarrow> bool" where
  "truthy loc = (case loc of None \<Rightarrow> False | Some l \<Rightarrow> l \<noteq> [])"

definition handle_location_setting ::
  "'doc nlp \<Rightarrow> write_env \<Rightarrow> string \<Rightarrow> config_file \<Rightarrow> (bool \<times> string) \<times> config_file" where
  "handle_location_setting n env text file =
     (case is_location_setting n text of
        (is_setting, found) \<Rightarrow>
          if \<not> is_setting then ((False, []), file)
          else
            let found = (if \<not> truthy found then extract_location_from_text n text else found)
            in case found of
                 Some l \<Rightarrow>
                   if l \<noteq> [] then
                     (case intents_save_location env l file of
                        (success, file') \<Rightarrow>
                          if success
                          then ((True, ''i've set your location to '' @ l @ ''.''), file')
                          else ((False, ''i had trouble saving your location. please try again.''), file'))
                   else ((False, ''i couldn't determine what location you want to set. please try again with a clear location name.''), file)
               | None \<Rightarrow> ((False, ''i couldn't determine what location you want to set. please try again with a clear location name.''), file))"

subsection \<open>A sample pipeline\<close>

text \<open>
  A small pipeline to run the service on: a document is its text, the only entity is
  the place \<open>Tokyo\<close> spelled with its capital, and a text scores 1 against an example
  phrase it contains and 0 otherwise.
\<close>

definition sample_nlp :: "string nlp" where
  "sample_nlp =
     \<lparr>brain = (\<lambda>t. t),
      ents = (\<lambda>d. if py_contains ''Tokyo'' d then [(''Tokyo'', ''GPE'')] else []),
      similarity = (\<lambda>d ex. if py_contains ex d then 1 else 0)\<rparr>"

section \<open>The weather block of a prompt (services/weather.py)\<close>

text \<open>
  An integer in an f-string is rendered in decimal, with a minus sign when negative.
\<close>

fun py_str_nat :: "nat \<Rightarrow> string" where
  "py_str_nat n =
     (if n < 10 then [char_of (48 + n)]
      else py_str_nat (n div 10) @ [char_of (48 + n mod 10)])"

definition py_str_int :: "int \<Rightarrow> string" where
  "py_str_int i = (if i < 0 then ''-'' @ py_str_nat (nat (- i)) else py_str_nat (nat i))"

text \<open>
  The dictionary that \<open>get_weather_data\<close> builds, with the keys that
  \<open>format_weather_data_for_prompt\<close> reads: the current conditions, always present, and
  the keys of today's forecast, which may be missing. Temperatures, humidity, wind
  speed and the chance of rain are integers. \<open>None\<close> stands for a missing or empty
  dictionary.
\<close>

record hour =
  h_time :: string
  h_temperature :: int
  h_description :: string
  h_chance_of_rain :: int

record weather_data =
  wd_location :: string
  wd_region :: string
  wd_country :: string
  wd_local_time :: string
  wd_temperature :: int
  wd_feels_like :: int
  wd_description :: string
  wd_humidity :: int
  wd_wind_speed :: int
  wd_wind_direction :: string
  wd_today_high :: "int option"
  wd_today_low :: "int option"
  wd_sunrise :: "string option"
  wd_sunset :: "string option"
  wd_upcoming_hours :: "hour list option"

definition newline :: string where
  "newline = [CHR 0x0A]"

definition degree :: string where
  "degree = [CHR 0xB0]"

definition rain_chance :: "hour \<Rightarrow> string" where
  "rain_chance hour =
     (if h_chance_of_rain hour > 0
      then '' ('' @ py_str_int (h_chance_of_rain hour) @ ''% chance of rain)''
      else [])"

definition add_hour :: "string \<Rightarrow> hour \<Rightarrow> string" where
  "add_hour sky_text hour =
     sky_text @ ''- '' @ h_time hour @ '': '' @ py_str_int (h_temperature hour) @ degree @ ''F, ''
       @ h_description hour @ rain_chance hour @ newline"

definition current_weather :: "weather_data \<Rightarrow> string" where
  "current_weather w =
     newline
     @ ''        --- CURRENT WEATHER DATA ---'' @ newline
     @ ''        Location: '' @ wd_location w @ '', '' @ wd_region w @ '', '' @ wd_country w @ newline
     @ ''        Current Time: '' @ wd_local_time w @ newline
     @ ''        Temperature: '' @ py_str_int (wd_temperature w) @ degree
         @ ''F (Feels like: '' @ py_str_int (wd_feels_like w) @ degree @ ''F)'' @ newline
     @ ''        Conditions: '' @ wd_description w @ newline
     @ ''        Humidity: '' @ py_str_int (wd_humidity w) @ ''%'' @ newline
     @ ''        Wind: '' @ py_str_int (wd_wind_speed w) @ '' km/h '' @ wd_wind_direction w @ newline"

definition format_weather_data_for_prompt :: "weather_data option \<Rightarrow> string" where
  "format_weather_data_for_prompt weather =
     (case weather of
        None \<Rightarrow> ''weather data couldn't be retrieved.''
      | Some w \<Rightarrow>
          let sky_text = current_weather w;
              sky_text =
                (case (wd_today_high w, wd_today_low w) of
                   (Some high, Some low) \<Rightarrow>
                     sky_text @ ''Today's High: '' @ py_str_int high @ degree @ ''F / Low: ''
                       @ py_str_int low @ degree @ ''F'' @ newline
                 | _ \<Rightarrow> sky_text);
              sky_text =
                (case (wd_sunrise w, wd_sunset w) of
                   (Some sunrise, Some sunset) \<Rightarrow>
                     sky_text @ ''Sunrise: '' @ sunrise @ '' / Sunset: '' @ sunset @ newline
                 | _ \<Rightarrow> sky_text)
          in (case wd_upcoming_hours w of
                Some (hour # hours) \<Rightarrow>
                  foldl add_hour (sky_text @ newline @ ''Upcoming Hours:'' @ newline) (hour # hours)
              | _ \<Rightarrow> sky_text))"

subsection \<open>An upcoming hour as the specification words it\<close>

text \<open>The line \<open>- HH:MM: <temp>\<degree>F, <description>\<close> without its end, and the suffix
  \<open> (N% chance of rain)\<close>.\<close>

definition hour_entry :: "hour \<Rightarrow> string" where
  "hour_entry hour =
     ''- '' @ h_time hour @ '': '' @ py_str_int (h_temperature hour) @ degree @ ''F, ''
       @ h_description hour"

definition rain_suffix :: "int \<Rightarrow> string" where
  "rain_suffix n = '' ('' @ py_str_int n @ ''% chance of rain)''"

definition hour_line :: "hour \<Rightarrow> string" where
  "hour_line hour =
     hour_entry hour
       @ (if h_chance_of_rain hour > 0 then rain_suffix (h_chance_of_rain hour) else [])
       @ newline"

subsection \<open>Sample weather data\<close>

definition dry_hour :: hour where
  "dry_hour = \<lparr>h_time = ''12:00'', h_temperature = 43, h_description = ''Sunny'', h_chance_of_rain = 0\<rparr>"

definition wet_hour :: hour where
  "wet_hour = \<lparr>h_time = ''15:00'', h_temperature = 44, h_description = ''Light rain'', h_chance_of_rain = 65\<rparr>"

definition sample_weather :: weather_data where
  "sample_weather =
     \<lparr>wd_location = ''Paris'', wd_region = ''Ile-de-France'', wd_country = ''France'',
      wd_local_time = ''2025-01-01 10:00:00'', wd_temperature = 41, wd_feels_like = 37,
      wd_description = ''Cloudy'', wd_humidity = 80, wd_wind_speed = 7,
      wd_wind_direction = ''NORTH'', wd_today_high = Some 45, wd_today_low = Some 30,
      wd_sunrise = Some ''08:44'', wd_sunset = Some ''17:04'',
      wd_upcoming_hours = Some [dry_hour, wet_hour]\<rparr>"

section \<open>The speech capture service (services/stt.py)\<close>

text \<open>
  One run of \<open>listen_to_microphone\<close>. What the microphone and the recognition service
  do is given: whether the microphone opens, whether the noise calibration succeeds,
  what \<open>recognizer.listen\<close> returns or raises, what \<open>recognize_google\<close> returns or
  raises, and the value of \<open>stop_event.is_set()\<close> at each of the five places that read
  it. The result is the sequence of calls made through \<open>call_from_thread\<close>; the
  callbacks themselves are taken not to raise. A captured sample is an object, truthy
  unless the library says otherwise.
\<close>

datatype mic_result = MicOpens | MicFails string

datatype adjust_result = Adjusted | AdjustFails string

datatype listen_result = Captured bool | WaitTimeoutError | ListenFails string

datatype recognize_result =
    Recognized string
  | UnknownValueError
  | RequestError string
  | RecognizeFails string

record listen_env =
  mic :: mic_result
  adjust :: adjust_result
  heard :: listen_result
  recognized :: recognize_result
  stop_before_listening :: bool
  stop_at_timeout :: bool
  stop_after_capture :: bool
  stop_after_recognition :: bool
  stop_at_error :: bool

datatype ui_call =
    UpdateStatus string string
  | GetAiResponse string
  | RestartWakeWordDetection

definition listen_to_microphone :: "bool \<Rightarrow> listen_env \<Rightarrow> ui_call list" where
  "listen_to_microphone should_listen_arg env =
     (case mic env of
        MicFails e \<Rightarrow>
          [UpdateStatus (''fatal mic error: '' @ e) ''error'', RestartWakeWordDetection]
      | MicOpens \<Rightarrow>
          (case adjust env of
             AdjustFails e \<Rightarrow>
               [UpdateStatus (''error adjusting for noise: '' @ e) ''error'',
                RestartWakeWordDetection]
           | Adjusted \<Rightarrow>
               if should_listen_arg \<and> \<not> stop_before_listening env then
                 UpdateStatus ''listening...'' ''listening'' #
                 (case heard env of
                    WaitTimeoutError \<Rightarrow>
                      if \<not> stop_at_timeout env
                      then [UpdateStatus ''no speech detected'' ''error'', RestartWakeWordDetection]
                      else []
                  | ListenFails e \<Rightarrow>
                      if \<not> stop_at_error env
                      then [UpdateStatus (''error: '' @ e) ''error'', RestartWakeWordDetection]
                      else []
                  | Captured voice_sample \<Rightarrow>
                      if stop_after_capture env then []
                      else if voice_sample then
                        UpdateStatus ''processing speech...'' ''processing'' #
                        (case recognized env of
                           Recognized words \<Rightarrow>
                             if stop_after_recognition env then []
                             else if words \<noteq> [] then [GetAiResponse words]
                             else []
                         | UnknownValueError \<Rightarrow>
                             [UpdateStatus ''couldn't understand audio'' ''error'',
                              RestartWakeWordDetection]
                         | RequestError e \<Rightarrow>
                             [UpdateStatus (''speech service error: '' @ e) ''error'',
                              RestartWakeWordDetection]
                         | RecognizeFails e \<Rightarrow>
                             if \<not> stop_at_error env
                             then [UpdateStatus (''error: '' @ e) ''error'',
                                   RestartWakeWordDetection]
                             else [])
                      else [])
               else []))"

definition silent_capture :: listen_env where
  "silent_capture =
     \<lparr>mic = MicOpens, adjust = Adjusted, heard = Captured True, recognized = Recognized [],
      stop_before_listening = False, stop_at_timeout = False, stop_after_capture = False,
      stop_after_recognition = False, stop_at_error = False\<rparr>"

section \<open>The wake-word worker and the controller's key actions\<close>

text \<open>
  \<open>os.path.join\<close> of a directory and a relative name, and the application as
  \<open>__init__\<close> leaves it once the indicator is composed with the class \<open>idle\<close>.
  \<open>tempfile.mkdtemp()\<close> returns a path the system chooses; it is an argument here.
\<close>

definition path_join :: "string \<Rightarrow> string \<Rightarrow> string" where
  "path_join dir name =
     (if dir = [] then name
      else if last dir = CHR ''/'' then dir @ name
      else dir @ ''/'' @ name)"

definition initial_app :: "string \<Rightarrow> app" where
  "initial_app wake_word_arg =
     \<lparr>wake_word = py_lower wake_word_arg,
      should_listen = False,
      detecting_wake_word = False,
      direct_listening_mode = False,
      stop_event = False,
      wake_word_detected_event = False,
      temp_dir = None,
      keyword_files = [],
      status_light = \<lparr>status = ''idle'', classes = {''idle''}\<rparr>,
      wake_word_thread = None,
      listening_thread = None\<rparr>"

definition write_keywords :: "string \<Rightarrow> app \<Rightarrow> string \<times> app" where
  "write_keywords fresh_dir s =
     (let s1 = (if temp_dir s = None then s\<lparr>temp_dir := Some fresh_dir\<rparr> else s);
          words_file = path_join (case temp_dir s1 of Some d \<Rightarrow> d | None \<Rightarrow> fresh_dir)
                         ''keywords.list''
      in (words_file,
          s1\<lparr>keyword_files :=
               (words_file, wake_word s1 @ '' /1e-20/'' @ [CHR 0x0A]) # keyword_files s1\<rparr>))"

definition spawn_wake_worker :: "string \<Rightarrow> app \<Rightarrow> app" where
  "spawn_wake_worker words_file s =
     s\<lparr>wake_word_thread :=
          Some \<lparr>ww_wake_word = wake_word s,
                ww_keywords_path = words_file,
                ww_detecting_wake_word = detecting_wake_word s,
                ww_phase = Starting\<rparr>\<rparr>"

definition spawn_listen_worker :: "app \<Rightarrow> app" where
  "spawn_listen_worker s =
     s\<lparr>listening_thread := Some \<lparr>lw_should_listen = should_listen s\<rparr>\<rparr>"

definition start_wake_word_detection :: "string \<Rightarrow> app \<Rightarrow> app" where
  "start_wake_word_detection fresh_dir s =
     (if \<not> detecting_wake_word s then
        (let s1 = s\<lparr>detecting_wake_word := True\<rparr>;
             s2 = s1\<lparr>direct_listening_mode := False\<rparr>;
             s3 = s2\<lparr>stop_event := False\<rparr>;
             s4 = s3\<lparr>wake_word_detected_event := False\<rparr>;
             (words_file, s5) = write_keywords fresh_dir s4;
             s6 = spawn_wake_worker words_file s5
         in update_status (''waiting for wake word '' @ [CHR 0x27] @ wake_word s6 @ [CHR 0x27] @ ''...'') ''wake-word'' s6)
      else s)"

definition start_direct_listening :: "app \<Rightarrow> app" where
  "start_direct_listening s =
     (if \<not> should_listen s then
        (let s1 = s\<lparr>stop_event := False\<rparr>;
             s2 = s1\<lparr>detecting_wake_word := False\<rparr>;
             s3 = s2\<lparr>direct_listening_mode := True\<rparr>;
             s4 = s3\<lparr>should_listen := True\<rparr>;
             s5 = spawn_listen_worker s4
         in update_status ''listening for your voice...'' ''listening'' s5)
      else s)"

definition action_toggle_wake_word :: "string \<Rightarrow> app \<Rightarrow> app" where
  "action_toggle_wake_word fresh_dir s =
     (if \<not> detecting_wake_word s then start_wake_word_detection fresh_dir s else stop_all s)"

definition action_toggle_listening :: "app \<Rightarrow> app" where
  "action_toggle_listening s =
     (if \<not> should_listen s then start_direct_listening s else stop_all s)"

definition action_stop_all :: "app \<Rightarrow> app" where
  "action_stop_all s = stop_all s"

definition handle_wake_word_detected :: "app \<Rightarrow> app" where
  "handle_wake_word_detected s =
     (if \<not> should_listen s then spawn_listen_worker (s\<lparr>should_listen := True\<rparr>) else s)"

definition auto_stop_listening :: "app \<Rightarrow> app" where
  "auto_stop_listening s =
     s\<lparr>should_listen := False, detecting_wake_word := False, direct_listening_mode := False\<rparr>"

text \<open>
  \<open>detect_wake_word\<close> in steps of the worker the application holds. The set-up runs up
  to the loop: the decoder engine is imported and built, the status is reported, the
  microphone opened and the utterance started (a failed noise calibration is only
  logged). A pass of the loop is two steps, and the controller can act between them.
  \<open>worker_test\<close> is the test of
  \<open>while not stop_event.is_set() and detecting_wake_word\<close>: it reads the stop signal of
  the application and the worker's own argument \<open>detecting_wake_word\<close>, and enters
  \<open>listener.listen\<close> or leaves the loop. \<open>worker_hear\<close> is the rest of the body: it
  handles what the microphone and the decoder deliver and goes back to the test, or
  reports the wake word and leaves the loop. After the loop the utterance is ended
  and, when the stop signal is set, the status \<open>stopped\<close> reported. Ending the utterance
  touches the decoder only and is not part of the state.
\<close>

datatype setup_result =
    SetupOk
  | ImportFails
  | DecoderFails string
  | MicrophoneFails string
  | StartUttFails string

datatype audio =
    Silence
  | ListenError
  | ProcessError
  | Hypothesis "string option"

definition set_phase :: "worker_phase \<Rightarrow> app \<Rightarrow> app" where
  "set_phase ph s =
     s\<lparr>wake_word_thread := map_option (\<lambda>w. w\<lparr>ww_phase := ph\<rparr>) (wake_word_thread s)\<rparr>"

definition after_loop :: "app \<Rightarrow> app" where
  "after_loop s =
     set_phase Finished (if stop_event s then update_status ''stopped'' ''idle'' s else s)"

definition worker_setup :: "setup_result \<Rightarrow> app \<Rightarrow> app" where
  "worker_setup r s =
     (case wake_word_thread s of
        None \<Rightarrow> s
      | Some w \<Rightarrow>
          if ww_phase w \<noteq> Starting then s
          else
            (case r of
               ImportFails \<Rightarrow>
                 set_phase Finished
                   (auto_stop_listening
                     (update_status ''error: pocketsphinx not installed'' ''error'' s))
             | DecoderFails e \<Rightarrow>
                 set_phase Finished
                   (auto_stop_listening (update_status (''decoder error: '' @ e) ''error'' s))
             | MicrophoneFails e \<Rightarrow>
                 after_loop
                   (auto_stop_listening
                     (update_status (''mic error: '' @ e) ''error''
                       (update_status (''listening for '' @ [CHR 0x27] @ ww_wake_word w @ [CHR 0x27] @ ''...'') ''wake-word'' s)))
             | StartUttFails e \<Rightarrow>
                 set_phase Finished
                   (auto_stop_listening
                     (update_status (''decoder start error: '' @ e) ''error''
                       (update_status (''listening for '' @ [CHR 0x27] @ ww_wake_word w @ [CHR 0x27] @ ''...'') ''wake-word'' s)))
             | SetupOk \<Rightarrow>
                 set_phase Looping
                   (update_status (''listening for '' @ [CHR 0x27] @ ww_wake_word w @ [CHR 0x27] @ ''...'') ''wake-word'' s)))"

definition worker_test :: "app \<Rightarrow> app" where
  "worker_test s =
     (case wake_word_thread s of
        None \<Rightarrow> s
      | Some w \<Rightarrow>
          if ww_phase w \<noteq> Looping then s
          else if \<not> stop_event s \<and> ww_detecting_wake_word w then set_phase Listening s
          else after_loop s)"

definition worker_hear :: "audio \<Rightarrow> app \<Rightarrow> app" where
  "worker_hear a s =
     (case wake_word_thread s of
        None \<Rightarrow> s
      | Some w \<Rightarrow>
          if ww_phase w \<noteq> Listening then s
          else
            (case a of
               Silence \<Rightarrow> set_phase Looping s
             | ListenError \<Rightarrow> set_phase Looping s
             | ProcessError \<Rightarrow> set_phase Looping s
             | Hypothesis None \<Rightarrow> set_phase Looping s
             | Hypothesis (Some hypstr) \<Rightarrow>
                 if py_contains (py_lower (ww_wake_word w)) (py_lower hypstr) then
                   after_loop
                     (handle_wake_word_detected
                       (update_status ''wake word detected! listening...'' ''listening'' s))
                 else set_phase Looping s))"

text \<open>A session: key presses of the user and steps of the wake-word worker, in the
  order they happen. \<open>silent_pass\<close> is one pass of the loop in which the microphone
  stays silent.\<close>

datatype session_event =
    ToggleWakeWord string
  | ToggleListening
  | StopAll
  | WorkerSetup setup_result
  | WorkerTest
  | WorkerHear audio

fun session_step :: "session_event \<Rightarrow> app \<Rightarrow> app" where
  "session_step (ToggleWakeWord fresh_dir) s = action_toggle_wake_word fresh_dir s"
| "session_step ToggleListening s = action_toggle_listening s"
| "session_step StopAll s = action_stop_all s"
| "session_step (WorkerSetup r) s = worker_setup r s"
| "session_step WorkerTest s = worker_test s"
| "session_step (WorkerHear a) s = worker_hear a s"

definition run_session :: "session_event list \<Rightarrow> app \<Rightarrow> app" where
  "run_session steps s = foldl (\<lambda>s step. session_step step s) s steps"

definition silent_pass :: "session_event list" where
  "silent_pass = [WorkerTest, WorkerHear Silence]"

definition wake_loop_running :: "app \<Rightarrow> bool" where
  "wake_loop_running s =
     (case wake_word_thread s of
        None \<Rightarrow> False
      | Some w \<Rightarrow> ww_phase w = Looping \<or> ww_phase w = Listening)"

text \<open>
  A session in which the flag is cleared while the worker loops: the user starts
  wake-word detection, the worker sets up and hears nothing on its first pass, and the
  user starts direct listening, which clears the flag and the stop signal.
\<close>

definition cleared_flag_session :: "session_event list" where
  "cleared_flag_session =
     [ToggleWakeWord ''/tmp/tmpdir'', WorkerSetup SetupOk, WorkerTest, WorkerHear Silence,
      ToggleListening]"

section \<open>Properties\<close>

subsection \<open>The rolling buffer\<close>

lemma py_last_n_length: "0 < n \<Longrightarrow> length (py_last_n n s) \<le> n"
  by (simp add: py_last_n_def)

lemma last_chars_append:
  "drop (length (drop (length a - n) a @ b) - n) (drop (length a - n) a @ b)
     = drop (length (a @ b) - n) (a @ b)"
proof (cases "length a \<le> n")
  case True
  then show ?thesis by simp
next
  case False
  then have la: "n < length a" by simp
  show ?thesis
  proof (cases "length b \<le> n")
    case True
    with la show ?thesis by (simp add: add.commute)
  next
    case False
    with la show ?thesis by simp
  qed
qed

lemma capped_is_last_chars:
  "(if length s > buffer_size then py_last_n buffer_size s else s)
     = drop (length s - buffer_size) s"
  by (simp add: py_last_n_def buffer_size_def)

lemma stream_loop_step:
  "stream_loop full_response box_text ((False, thought) # rest)
     = (drop (length (full_response @ thought) - buffer_size) (full_response @ thought),
        hd (py_rsplit1 assistant_tag box_text) @ assistant_tag
          @ drop (length (full_response @ thought) - buffer_size) (full_response @ thought))
       # stream_loop
           (drop (length (full_response @ thought) - buffer_size) (full_response @ thought))
           (hd (py_rsplit1 assistant_tag box_text) @ assistant_tag
              @ drop (length (full_response @ thought) - buffer_size) (full_response @ thought))
           rest"
  using capped_is_last_chars [of "full_response @ thought"]
  by (simp add: Let_def)

lemma stream_loop_length:
  "length (stream_loop full_response box_text frags)
     = length (takeWhile (\<lambda>f. \<not> fst f) frags)"
proof (induction frags arbitrary: full_response box_text)
  case Nil
  then show ?case by simp
next
  case (Cons f frags)
  obtain stop_is_set thought where f: "f = (stop_is_set, thought)" by (cases f)
  show ?case
  proof (cases stop_is_set)
    case True
    with f show ?thesis by simp
  next
    case False
    with f have "f = (False, thought)" by simp
    then show ?thesis
      by (simp only: stream_loop_step Cons.IH list.size takeWhile.simps fst_conv) simp
  qed
qed

lemma stream_loop_nth:
  assumes "full_response = drop (length pre - buffer_size) pre"
    and "i < length (stream_loop full_response box_text frags)"
  shows "fst (stream_loop full_response box_text frags ! i)
           = drop (length (pre @ concat (map snd (take (Suc i) frags))) - buffer_size)
               (pre @ concat (map snd (take (Suc i) frags)))
         \<and> (\<exists>h. snd (stream_loop full_response box_text frags ! i)
                  = h @ assistant_tag @ fst (stream_loop full_response box_text frags ! i))"
  using assms
proof (induction frags arbitrary: full_response box_text pre i)
  case Nil
  then show ?case by simp
next
  case (Cons f frags)
  obtain stop_is_set thought where f: "f = (stop_is_set, thought)" by (cases f)
  show ?case
  proof (cases stop_is_set)
    case True
    with f Cons.prems show ?thesis by simp
  next
    case False
    with f have f': "f = (False, thought)" by simp
    define full2 where
      "full2 = drop (length (full_response @ thought) - buffer_size) (full_response @ thought)"
    define text2 where
      "text2 = hd (py_rsplit1 assistant_tag box_text) @ assistant_tag @ full2"
    have step: "stream_loop full_response box_text (f # frags)
                  = (full2, text2) # stream_loop full2 text2 frags"
      unfolding f' full2_def text2_def by (rule stream_loop_step)
    have full2: "full2 = drop (length (pre @ thought) - buffer_size) (pre @ thought)"
      unfolding full2_def Cons.prems(1) by (rule last_chars_append)
    show ?thesis
    proof (cases i)
      case 0
      with full2 show ?thesis
        unfolding step by (auto simp: f' text2_def)
    next
      case (Suc j)
      with Cons.prems(2) step have j: "j < length (stream_loop full2 text2 frags)" by simp
      from Cons.IH [OF full2 j]
      have eq: "fst (stream_loop full2 text2 frags ! j)
                  = drop (length ((pre @ thought) @ concat (map snd (take (Suc j) frags))) - buffer_size)
                      ((pre @ thought) @ concat (map snd (take (Suc j) frags)))"
        and tag: "\<exists>h. snd (stream_loop full2 text2 frags ! j)
                  = h @ assistant_tag @ fst (stream_loop full2 text2 frags ! j)"
        by blast+
      have nth: "stream_loop full_response box_text (f # frags) ! i
                  = stream_loop full2 text2 frags ! j"
        unfolding step Suc by simp
      have cat: "pre @ concat (map snd (take (Suc i) (f # frags)))
                  = (pre @ thought) @ concat (map snd (take (Suc j) frags))"
        by (simp add: Suc f')
      show ?thesis
        unfolding nth cat using eq tag by blast
    qed
  qed
qed

lemma stream_loop_bounded:
  "(buf, shown) \<in> set (stream_loop full_response box_text frags) \<Longrightarrow> length buf \<le> buffer_size"
proof (induction frags arbitrary: full_response box_text)
  case Nil
  then show ?case by simp
next
  case (Cons f frags)
  obtain stop_is_set thought where f: "f = (stop_is_set, thought)"
    by (cases f)
  show ?case
  proof (cases stop_is_set)
    case True
    with Cons.prems f show ?thesis by simp
  next
    case False
    define full1 where "full1 = full_response @ thought"
    define full2 where
      "full2 = (if length full1 > buffer_size then py_last_n buffer_size full1 else full1)"
    define text2 where "text2 = hd (py_rsplit1 assistant_tag box_text) @ assistant_tag @ full2"
    have step: "stream_loop full_response box_text (f # frags)
                  = (full2, text2) # stream_loop full2 text2 frags"
      using False f by (simp add: full1_def full2_def text2_def Let_def)
    have cap: "length full2 \<le> buffer_size"
      using py_last_n_length [of buffer_size full1]
      by (simp add: full2_def buffer_size_def)
    from Cons.prems step
    consider "(buf, shown) = (full2, text2)"
      | "(buf, shown) \<in> set (stream_loop full2 text2 frags)"
      by auto
    then show ?thesis
    proof cases
      case 1
      with cap show ?thesis by simp
    next
      case 2
      then show ?thesis by (rule Cons.IH)
    qed
  qed
qed

text \<open>
  C4. Whatever the fragments and however long they are together: the loop of
  \<open>get_ai_response\<close> updates the display once for every fragment that arrives before
  the stop signal; the buffer shown at an update is the text streamed so far when that
  has at most 1024 characters and its last 1024 characters otherwise, and it follows
  the assistant tag in the text shown; so no buffer shown exceeds 1024 characters. The
  loop starts from the empty buffer.
\<close>

theorem rolling_buffer_at_most_1024:
  "length (stream_loop [] box_text frags) = length (takeWhile (\<lambda>f. \<not> fst f) frags)
   \<and> (\<forall>i < length (stream_loop [] box_text frags).
        fst (stream_loop [] box_text frags ! i)
          = drop (length (concat (map snd (take (Suc i) frags))) - 1024)
              (concat (map snd (take (Suc i) frags)))
        \<and> (\<exists>h. snd (stream_loop [] box_text frags ! i)
                 = h @ ''[bold cyan]brother_eye:[/] '' @ fst (stream_loop [] box_text frags ! i)))
   \<and> (\<forall>(buf, shown) \<in> set (stream_loop [] box_text frags). length buf \<le> 1024)"
proof (intro conjI allI impI ballI)
  show "length (stream_loop [] box_text frags) = length (takeWhile (\<lambda>f. \<not> fst f) frags)"
    by (rule stream_loop_length)
next
  fix i assume i: "i < length (stream_loop [] box_text frags)"
  have start: "[] = drop (length ([] :: string) - buffer_size) []" by simp
  note nth = stream_loop_nth [OF start i]
  from nth show "fst (stream_loop [] box_text frags ! i)
          = drop (length (concat (map snd (take (Suc i) frags))) - 1024)
              (concat (map snd (take (Suc i) frags)))"
    by (simp add: buffer_size_def)
  from nth show "\<exists>h. snd (stream_loop [] box_text frags ! i)
                 = h @ ''[bold cyan]brother_eye:[/] '' @ fst (stream_loop [] box_text frags ! i)"
    unfolding assistant_tag_def by blast
next
  fix x assume x: "x \<in> set (stream_loop [] box_text frags)"
  obtain buf shown where bs: "x = (buf, shown)" by (cases x)
  with x stream_loop_bounded [of buf shown "[]" box_text frags]
  have "length buf \<le> 1024" by (simp add: buffer_size_def)
  with bs show "case x of (buf, shown) \<Rightarrow> length buf \<le> 1024" by simp
qed

theorem rolling_buffer_at_most_1024_witness:
  "1 < length (stream_loop [] ''[bold cyan]brother_eye:[/] ''
         [(False, replicate 1000 (CHR ''a'')), (False, replicate 100 (CHR ''b''))])
   \<and> fst (stream_loop [] ''[bold cyan]brother_eye:[/] ''
         [(False, replicate 1000 (CHR ''a'')), (False, replicate 100 (CHR ''b''))] ! 1)
       = replicate 924 (CHR ''a'') @ replicate 100 (CHR ''b'')
   \<and> stream_loop [] ''[bold cyan]brother_eye:[/] ''
         [(False, replicate 1000 (CHR ''a'')), (False, replicate 100 (CHR ''b''))] ! 1
       \<in> set (stream_loop [] ''[bold cyan]brother_eye:[/] ''
         [(False, replicate 1000 (CHR ''a'')), (False, replicate 100 (CHR ''b''))])
   \<and> length (fst (stream_loop [] ''[bold cyan]brother_eye:[/] ''
         [(False, replicate 1000 (CHR ''a'')), (False, replicate 100 (CHR ''b''))] ! 1)) = 1024"
proof -
  define frags where
    "frags = [(False, replicate 1000 (CHR ''a'')), (False, replicate 100 (CHR ''b''))]"
  define out where "out = stream_loop [] ''[bold cyan]brother_eye:[/] '' frags"
  note T = rolling_buffer_at_most_1024 [of "''[bold cyan]brother_eye:[/] ''" frags]
  from T have len: "length out = 2"
    by (simp add: out_def frags_def)
  then have one: "1 < length out" by simp
  have total: "concat (map snd (take (Suc 1) frags))
                 = replicate 1000 (CHR ''a'') @ replicate 100 (CHR ''b'')"
    by (simp add: frags_def)
  from T one have "fst (out ! 1)
      = drop (length (concat (map snd (take (Suc 1) frags))) - 1024)
          (concat (map snd (take (Suc 1) frags)))"
    unfolding out_def by blast
  then have buf: "fst (out ! 1) = replicate 924 (CHR ''a'') @ replicate 100 (CHR ''b'')"
    unfolding total by simp
  from one have mem: "out ! 1 \<in> set out" by (rule nth_mem)
  from buf have l: "length (fst (out ! 1)) = 1024" by simp
  from one buf mem l show ?thesis unfolding out_def frags_def by blast
qed

subsection \<open>Stopping everything\<close>

text \<open>
  C5. After \<open>stop_all\<close> the three mode flags are false, the stop signal is set, and of
  the five status categories the indicator carries \<open>idle\<close> and no other: the tags
  \<open>listening\<close>, \<open>processing\<close>, \<open>error\<close> and \<open>wake-word\<close> are gone.
\<close>

theorem stop_all_idle:
  "\<not> should_listen (stop_all s)
   \<and> \<not> detecting_wake_word (stop_all s)
   \<and> \<not> direct_listening_mode (stop_all s)
   \<and> stop_event (stop_all s)
   \<and> ''listening'' \<notin> classes (status_light (stop_all s))
   \<and> ''processing'' \<notin> classes (status_light (stop_all s))
   \<and> ''error'' \<notin> classes (status_light (stop_all s))
   \<and> ''wake-word'' \<notin> classes (status_light (stop_all s))
   \<and> ''idle'' \<in> classes (status_light (stop_all s))
   \<and> classes (status_light (stop_all s)) \<inter> status_categories = {''idle''}
   \<and> status (status_light (stop_all s)) = ''idle''"
  by (auto simp: stop_all_def reset_indicator_def add_class_def remove_class_def
      status_categories_def Let_def)

subsection \<open>The reply stream\<close>


lemma neither_dropped:
  "dict_get members ''response'' = None \<Longrightarrow> dict_get members ''error'' = None \<Longrightarrow>
   brain_stream (pre @ Doc (JObject members) # post) = brain_stream (pre @ post)"
proof (induction pre rule: brain_stream.induct)
  case (5 chunk_data rest)
  then show ?case
    by (cases "json_contains ''response'' chunk_data"; cases "json_contains ''error'' chunk_data")
       (auto split: sum.splits bool.splits)
qed simp_all




text \<open>
  C9. A record with neither a \<open>response\<close> nor an \<open>error\<close> field leaves no trace: the
  generator behaves on the stream as on the stream without that line (same fragments,
  same log records, same end). An unparseable line, in contrast, writes a warning.
\<close>

theorem record_with_neither_field_dropped:
  "(dict_get members ''response'' = None \<and> dict_get members ''error'' = None \<longrightarrow>
      brain_stream (pre @ Doc (JObject members) # post) = brain_stream (pre @ post))
   \<and> fst (brain_stream (BadJson e # post))
       = LogWarning (''error parsing json response: '' @ e) # fst (brain_stream post)"
  using neither_dropped [of members pre post]
  by (simp add: case_prod_unfold Let_def)

theorem record_with_neither_field_dropped_witness:
  "dict_get [(''done'', JOther ''True'')] ''response'' = None
   \<and> dict_get [(''done'', JOther ''True'')] ''error'' = None
   \<and> brain_stream ([Doc (JObject [(''response'', JStr ''Hel'')])]
        @ Doc (JObject [(''done'', JOther ''True'')]) # [Doc (JObject [(''response'', JStr ''lo'')])])
      = ([Yield (JStr ''Hel''), Yield (JStr ''lo'')], Exhausted)"
  using record_with_neither_field_dropped
    [of "[(''done'', JOther ''True'')]" "[Doc (JObject [(''response'', JStr ''Hel'')])]"
        "[Doc (JObject [(''response'', JStr ''lo'')])]"]
  by (simp add: dict_get_def)

subsection \<open>The saved location\<close>

text \<open>
  C2. For every location string \<open>v\<close>: when \<open>save_location(v)\<close> of either service
  succeeds, \<open>get_saved_location()\<close> of either service, called next, returns \<open>v\<close>; and
  with no config file both return \<open>Santa Cruz\<close>.
\<close>

theorem saved_location_round_trip:
  "(fst (weather_save_location env v file) \<longrightarrow>
      weather_get_saved_location (snd (weather_save_location env v file)) = JStr v
      \<and> intents_get_saved_location (snd (weather_save_location env v file)) = JStr v)
   \<and> (fst (intents_save_location env v file) \<longrightarrow>
      weather_get_saved_location (snd (intents_save_location env v file)) = JStr v
      \<and> intents_get_saved_location (snd (intents_save_location env v file)) = JStr v)
   \<and> weather_get_saved_location None = JStr ''Santa Cruz''
   \<and> intents_get_saved_location None = JStr ''Santa Cruz''"
  by (cases env)
     (simp_all add: weather_save_location_def intents_save_location_def
        weather_get_saved_location_def intents_get_saved_location_def config_get_def
        dict_get_def DEFAULT_LOCATION_def)

theorem saved_location_round_trip_witness:
  "fst (weather_save_location WriteOk ''Tokyo'' None)
   \<and> fst (intents_save_location WriteOk ''Tokyo'' None)
   \<and> weather_get_saved_location (snd (intents_save_location WriteOk ''Tokyo'' None)) = JStr ''Tokyo''
   \<and> intents_get_saved_location (snd (weather_save_location WriteOk ''Tokyo'' None)) = JStr ''Tokyo''
   \<and> weather_get_saved_location (snd (weather_save_location WriteOk ''Tokyo'' None)) = JStr ''Tokyo''
   \<and> intents_get_saved_location (snd (intents_save_location WriteOk ''Tokyo'' None)) = JStr ''Tokyo''"
  using saved_location_round_trip [of WriteOk "''Tokyo''" None]
  by (simp add: weather_save_location_def intents_save_location_def)

subsection \<open>Splitting and trimming\<close>

lemma split_first_sound:
  "split_first sep s = Some (a, b) \<Longrightarrow> s = a @ sep @ b"
proof (induction s arbitrary: a b)
  case Nil
  then show ?case by (simp split: if_splits)
next
  case (Cons c cs)
  show ?case
  proof (cases "prefix sep (c # cs)")
    case True
    with Cons.prems have "a = []" "b = drop (length sep) (c # cs)" by simp_all
    moreover from True obtain r where "c # cs = sep @ r" by (auto simp: prefix_def)
    ultimately show ?thesis by simp
  next
    case False
    with Cons.prems obtain a' where "split_first sep cs = Some (a', b)" "a = c # a'"
      by (auto split: option.splits)
    with Cons.IH [of a' b] show ?thesis by simp
  qed
qed

lemma split_first_char:
  "split_first [c] s =
     (if c \<in> set s then Some (takeWhile (\<lambda>x. x \<noteq> c) s, tl (dropWhile (\<lambda>x. x \<noteq> c) s))
      else None)"
  by (induction s) auto

lemma strip_ending_char:
  "strip_ending place [c] =
     (if c \<in> set place then py_strip (takeWhile (\<lambda>x. x \<noteq> c) place) else place)"
  by (simp add: strip_ending_def py_contains_def py_split1_def split_first_char)

lemma lstrip_takeWhile:
  assumes "\<And>c. py_isspace c \<Longrightarrow> P c"
  shows "dropWhile py_isspace (takeWhile P x) = takeWhile P (dropWhile py_isspace x)"
  using assms by (induction x) auto

lemma rstrip_decomp:
  "\<exists>ws. y = rev (dropWhile py_isspace (rev y)) @ ws \<and> (\<forall>c\<in>set ws. py_isspace c)"
proof -
  have "rev y = takeWhile py_isspace (rev y) @ dropWhile py_isspace (rev y)" by simp
  then have "y = rev (dropWhile py_isspace (rev y)) @ rev (takeWhile py_isspace (rev y))"
    by (metis rev_append rev_rev_ident)
  moreover have "\<forall>c\<in>set (rev (takeWhile py_isspace (rev y))). py_isspace c"
    by (auto dest: set_takeWhileD)
  ultimately show ?thesis by blast
qed

lemma rstrip_append_spaces:
  assumes "\<forall>c\<in>set ws. py_isspace c"
  shows "rev (dropWhile py_isspace (rev (z @ ws))) = rev (dropWhile py_isspace (rev z))"
proof -
  have "dropWhile py_isspace (rev ws @ rev z) = dropWhile py_isspace (rev z)"
    by (rule dropWhile_append2) (use assms in auto)
  then show ?thesis by simp
qed

lemma rstrip_idem:
  "rev (dropWhile py_isspace (rev (rev (dropWhile py_isspace (rev y))))) = rev (dropWhile py_isspace (rev y))"
  by (simp add: dropWhile_idem)

lemma rstrip_takeWhile:
  assumes sp: "\<And>c. py_isspace c \<Longrightarrow> P c"
  shows "rev (dropWhile py_isspace (rev (takeWhile P (rev (dropWhile py_isspace (rev y))))))
         = rev (dropWhile py_isspace (rev (takeWhile P y)))"
proof -
  define z where "z = rev (dropWhile py_isspace (rev y))"
  from rstrip_decomp [of y] obtain ws where y: "y = z @ ws" and ws: "\<forall>c\<in>set ws. py_isspace c"
    unfolding z_def by blast
  show ?thesis
  proof (cases "\<forall>c\<in>set z. P c")
    case True
    with sp ws have "\<forall>c\<in>set (z @ ws). P c" by auto
    then have twy: "takeWhile P y = z @ ws"
      using y by (simp add: takeWhile_eq_all_conv)
    have twz: "takeWhile P z = z"
      using True by (simp add: takeWhile_eq_all_conv)
    have app: "rev (dropWhile py_isspace (rev (z @ ws))) = rev (dropWhile py_isspace (rev z))"
      using ws by (rule rstrip_append_spaces)
    show ?thesis unfolding z_def [symmetric] by (simp only: twy twz app)
  next
    case False
    then have "takeWhile P (z @ ws) = takeWhile P z" by (auto simp: takeWhile_append1)
    with y show ?thesis unfolding z_def [symmetric] by simp
  qed
qed

lemma lstrip_of_strip:
  "dropWhile py_isspace (py_strip x) = py_strip x"
proof -
  define y where "y = dropWhile py_isspace x"
  define z where "z = rev (dropWhile py_isspace (rev y))"
  from rstrip_decomp [of y] obtain ws where yz: "y = z @ ws"
    unfolding z_def by blast
  have hd_y: "y = [] \<or> \<not> py_isspace (hd y)"
    unfolding y_def by (metis hd_dropWhile)
  have "z = [] \<or> \<not> py_isspace (hd z)"
  proof (cases z)
    case Nil
    then show ?thesis by simp
  next
    case (Cons h t)
    with yz hd_y show ?thesis by auto
  qed
  then have "dropWhile py_isspace z = z" by (cases z) auto
  then show ?thesis by (simp add: py_strip_def y_def z_def)
qed

lemma strip_takeWhile_strip:
  assumes sp: "\<And>c. py_isspace c \<Longrightarrow> P c"
  shows "py_strip (takeWhile P (py_strip x)) = py_strip (takeWhile P x)"
proof -
  have "py_strip (takeWhile P (py_strip x))
        = rev (dropWhile py_isspace (rev (takeWhile P (dropWhile py_isspace (py_strip x)))))"
    by (simp add: py_strip_def [of "takeWhile P (py_strip x)"] lstrip_takeWhile [OF sp])
  also have "\<dots> = rev (dropWhile py_isspace (rev (takeWhile P (py_strip x))))"
    by (simp add: lstrip_of_strip)
  also have "\<dots> = rev (dropWhile py_isspace (rev (takeWhile P (dropWhile py_isspace x))))"
    unfolding py_strip_def by (rule rstrip_takeWhile [OF sp])
  also have "\<dots> = py_strip (takeWhile P x)"
    by (simp add: py_strip_def lstrip_takeWhile [OF sp])
  finally show ?thesis .
qed

lemma takeWhile_all: "takeWhile (\<lambda>c. True) y = y"
  by (induction y) auto

lemma strip_idem: "py_strip (py_strip x) = py_strip x"
  using strip_takeWhile_strip [of "\<lambda>c. True" x] by (simp add: takeWhile_all)

lemma takeWhile_twice:
  "takeWhile P (takeWhile Q xs) = takeWhile (\<lambda>x. Q x \<and> P x) xs"
  by (induction xs) auto

lemma takeWhile_absent: "c \<notin> set p \<Longrightarrow> takeWhile (\<lambda>x. x \<noteq> c) p = p"
  by (induction p) auto

lemma strip_ending_stripped:
  assumes "py_strip p = p"
  shows "strip_ending p [c] = py_strip (takeWhile (\<lambda>x. x \<noteq> c) p)"
  using assms by (simp add: strip_ending_char takeWhile_absent)

lemma endings_not_space:
  "\<not> py_isspace CHR ''.''" "\<not> py_isspace CHR ''?''" "\<not> py_isspace CHR ''!''"
  by (simp_all add: py_isspace_def)

lemma strip_endings_spec:
  "foldl strip_ending (py_strip r) sentence_endings
     = py_strip (takeWhile (\<lambda>c. \<not> sentence_end c) r)"
proof -
  define p1 where "p1 = strip_ending (py_strip r) ''.''"
  define p2 where "p2 = strip_ending p1 ''?''"
  define p3 where "p3 = strip_ending p2 ''!''"
  have sp1: "\<And>c. py_isspace c \<Longrightarrow> c \<noteq> CHR ''.''"
    and sp2: "\<And>c. py_isspace c \<Longrightarrow> c \<noteq> CHR ''?''"
    and sp3: "\<And>c. py_isspace c \<Longrightarrow> c \<noteq> CHR ''!''"
    using endings_not_space by auto
  have "p1 = py_strip (takeWhile (\<lambda>x. x \<noteq> CHR ''.'') (py_strip r))"
    unfolding p1_def by (rule strip_ending_stripped) (rule strip_idem)
  then have e1: "p1 = py_strip (takeWhile (\<lambda>x. x \<noteq> CHR ''.'') r)"
    by (simp only: strip_takeWhile_strip [of "\<lambda>x. x \<noteq> CHR ''.''", OF sp1])
  have s1: "py_strip p1 = p1" by (simp add: e1 strip_idem)
  have "p2 = py_strip (takeWhile (\<lambda>x. x \<noteq> CHR ''?'') p1)"
    unfolding p2_def by (rule strip_ending_stripped [OF s1])
  then have e2: "p2 = py_strip (takeWhile (\<lambda>x. x \<noteq> CHR ''?'') (takeWhile (\<lambda>x. x \<noteq> CHR ''.'') r))"
    by (simp only: e1 strip_takeWhile_strip [of "\<lambda>x. x \<noteq> CHR ''?''", OF sp2])
  have s2: "py_strip p2 = p2" by (simp add: e2 strip_idem)
  have "p3 = py_strip (takeWhile (\<lambda>x. x \<noteq> CHR ''!'') p2)"
    unfolding p3_def by (rule strip_ending_stripped [OF s2])
  then have e3: "p3 = py_strip (takeWhile (\<lambda>x. x \<noteq> CHR ''!'')
                 (takeWhile (\<lambda>x. x \<noteq> CHR ''?'') (takeWhile (\<lambda>x. x \<noteq> CHR ''.'') r)))"
    by (simp only: e2 strip_takeWhile_strip [of "\<lambda>x. x \<noteq> CHR ''!''", OF sp3])
  have "(\<lambda>x. (x \<noteq> CHR ''.'' \<and> x \<noteq> CHR ''?'') \<and> x \<noteq> CHR ''!'') = (\<lambda>c. \<not> sentence_end c)"
    by (auto simp: sentence_end_def)
  then have "p3 = py_strip (takeWhile (\<lambda>c. \<not> sentence_end c) r)"
    by (simp add: e3 takeWhile_twice)
  moreover have "foldl strip_ending (py_strip r) sentence_endings = p3"
    by (simp add: sentence_endings_def p1_def p2_def p3_def)
  ultimately show ?thesis by simp
qed

lemma split1_index1:
  "py_contains phrase s \<Longrightarrow> py_split1 phrase s ! Suc 0 = remainder_after phrase s"
  by (auto simp: py_contains_def py_split1_def remainder_after_def)

lemma scan_phrases_spec:
  "scan_phrases phrases s = first_phrase_remainder phrases s"
proof (induction phrases)
  case Nil
  then show ?case by (simp add: first_phrase_remainder_def)
next
  case (Cons phrase rest)
  show ?case
  proof (cases "py_contains phrase s")
    case True
    then show ?thesis
      by (simp add: first_phrase_remainder_def trimmed_sentence_def split1_index1
          strip_endings_spec Let_def)
  next
    case False
    with Cons.IH show ?thesis by (simp add: first_phrase_remainder_def)
  qed
qed

subsection \<open>Locations in a weather query\<close>

text \<open>
  C6. \<open>extract_location\<close> returns, for the first phrase of its list found in the
  lower-cased input, the remainder after that phrase, cut before the first \<open>.\<close>, \<open>?\<close>
  or \<open>!\<close> and trimmed, and no value when that is empty or no phrase is found; on
  \<open>what's the weather in Paris\<close> it returns \<open>paris\<close>.
\<close>

theorem extract_location_first_phrase:
  "extract_location text = first_phrase_remainder weather_location_phrases (py_lower text)
   \<and> extract_location ''what's the weather in Paris'' = Some ''paris''"
proof -
  have "extract_location ''what's the weather in Paris'' = Some ''paris''"
    by code_simp
  then show ?thesis
    by (simp add: extract_location_def scan_phrases_spec)
qed

subsection \<open>Locations in a location-setting request\<close>

lemma py_lower_char_idem: "py_lower_char (py_lower_char c) = py_lower_char c"
proof -
  define n where "n = (of_char c :: nat)"
  have n: "n < 256" unfolding n_def by simp
  show ?thesis
  proof (cases "(65 \<le> n \<and> n \<le> 90) \<or> (192 \<le> n \<and> n \<le> 222 \<and> n \<noteq> 215)")
    case False
    then have "py_lower_char c = c"
      unfolding py_lower_char_def Let_def n_def by presburger
    then show ?thesis by simp
  next
    case True
    then have low: "py_lower_char c = char_of (n + 32)"
      unfolding py_lower_char_def Let_def n_def by presburger
    from True have m: "(of_char (char_of (n + 32) :: char) :: nat) = n + 32"
      by auto
    from True have "\<not> ((65 \<le> n + 32 \<and> n + 32 \<le> 90) \<or> (192 \<le> n + 32 \<and> n + 32 \<le> 222 \<and> n + 32 \<noteq> 215))"
      by auto
    with m have "py_lower_char (char_of (n + 32)) = char_of (n + 32)"
      unfolding py_lower_char_def Let_def by presburger
    with low show ?thesis by simp
  qed
qed

lemma set_py_strip: "set (py_strip x) \<subseteq> set x"
proof -
  have "set (dropWhile py_isspace (rev (dropWhile py_isspace x))) \<subseteq> set (rev (dropWhile py_isspace x))"
    by (rule set_dropWhileD [THEN subsetI])
  moreover have "set (dropWhile py_isspace x) \<subseteq> set x"
    by (rule set_dropWhileD [THEN subsetI])
  ultimately show ?thesis by (auto simp: py_strip_def)
qed

lemma set_split_first:
  "split_first sep s = Some (a, b) \<Longrightarrow> set a \<subseteq> set s \<and> set b \<subseteq> set s"
  by (drule split_first_sound) auto

lemma set_strip_ending: "set (strip_ending p e) \<subseteq> set p"
proof (cases "split_first e p")
  case None
  then show ?thesis by (simp add: strip_ending_def py_contains_def)
next
  case (Some ab)
  obtain a b where ab: "ab = (a, b)" by (cases ab)
  with Some have "set a \<subseteq> set p" using set_split_first by blast
  moreover from Some ab have "strip_ending p e = py_strip a"
    by (simp add: strip_ending_def py_contains_def py_split1_def)
  ultimately show ?thesis using set_py_strip [of a] by auto
qed

lemma set_strip_endings: "set (foldl strip_ending p es) \<subseteq> set p"
proof (induction es arbitrary: p)
  case Nil
  then show ?case by simp
next
  case (Cons e es)
  have "set (foldl strip_ending (strip_ending p e) es) \<subseteq> set (strip_ending p e)"
    by (rule Cons.IH)
  with set_strip_ending [of p e] show ?case by auto
qed

lemma set_scan_phrases:
  "scan_phrases phrases s = Some loc \<Longrightarrow> set loc \<subseteq> set s"
proof (induction phrases)
  case Nil
  then show ?case by simp
next
  case (Cons phrase rest)
  show ?case
  proof (cases "py_contains phrase s")
    case False
    with Cons show ?thesis by simp
  next
    case True
    then obtain a b where ab: "split_first phrase s = Some (a, b)"
      by (auto simp: py_contains_def)
    then have b: "set b \<subseteq> set s" using set_split_first by blast
    from ab have idx: "py_split1 phrase s ! 1 = b" by (simp add: py_split1_def)
    from True Cons.prems idx
    have "loc = foldl strip_ending (py_strip b) sentence_endings"
      by (simp add: Let_def split: if_splits)
    with set_strip_endings [of "py_strip b" sentence_endings] set_py_strip [of b] b
    show ?thesis by auto
  qed
qed

lemma lowered_fixed: "set loc \<subseteq> set (py_lower text) \<Longrightarrow> py_lower loc = loc"
proof -
  assume sub: "set loc \<subseteq> set (py_lower text)"
  have "\<And>c. c \<in> set loc \<Longrightarrow> py_lower_char c = c"
  proof -
    fix c assume "c \<in> set loc"
    with sub obtain d where "c = py_lower_char d" by (auto simp: py_lower_def)
    then show "py_lower_char c = c" by (simp add: py_lower_char_idem)
  qed
  then show ?thesis unfolding py_lower_def by (simp add: map_idI)
qed

text \<open>
  C10. When \<open>extract_location_from_text\<close> finds no place entity and takes the phrase
  scan, the location it returns is lower-cased whatever the casing of the input; when
  it finds a place entity it returns the entity text as it is. \<open>handle_location_setting\<close>,
  when the intent is location setting and detection itself gave no location, saves and
  echoes exactly that string, so its case depends on the path taken.
\<close>

theorem fallback_location_lower_cased:
  "(place_entities n (brain n text) = [] \<and> extract_location_from_text n text = Some loc
      \<longrightarrow> py_lower loc = loc)
   \<and> (place_entities n (brain n text) = p # ps \<longrightarrow> extract_location_from_text n text = Some p)
   \<and> (fst (is_location_setting n text) \<and> \<not> truthy (snd (is_location_setting n text))
        \<and> extract_location_from_text n text = Some loc \<and> loc \<noteq> []
      \<longrightarrow> handle_location_setting n WriteOk text file
            = ((True, ''i've set your location to '' @ loc @ ''.''),
               Some (Document (JObject [(''location'', JStr loc)]))))"
proof (intro conjI impI)
  assume a: "place_entities n (brain n text) = [] \<and> extract_location_from_text n text = Some loc"
  then have "scan_phrases intent_location_phrases (py_lower text) = Some loc"
    by (auto simp: extract_location_from_text_def Let_def)
  then have "set loc \<subseteq> set (py_lower text)" by (rule set_scan_phrases)
  then show "py_lower loc = loc" by (rule lowered_fixed)
next
  assume "place_entities n (brain n text) = p # ps"
  then show "extract_location_from_text n text = Some p"
    by (simp add: extract_location_from_text_def)
next
  assume a: "fst (is_location_setting n text) \<and> \<not> truthy (snd (is_location_setting n text))
        \<and> extract_location_from_text n text = Some loc \<and> loc \<noteq> []"
  obtain is_setting found where isl: "is_location_setting n text = (is_setting, found)"
    by (cases "is_location_setting n text")
  with a show "handle_location_setting n WriteOk text file
            = ((True, ''i've set your location to '' @ loc @ ''.''),
               Some (Document (JObject [(''location'', JStr loc)])))"
    by (simp add: handle_location_setting_def intents_save_location_def)
qed

theorem fallback_location_lower_cased_witness:
  "place_entities sample_nlp (brain sample_nlp ''Set my location to Osaka.'') = []
   \<and> extract_location_from_text sample_nlp ''Set my location to Osaka.'' = Some ''osaka''
   \<and> py_lower ''osaka'' = ''osaka''
   \<and> place_entities sample_nlp (brain sample_nlp ''Set my location to Tokyo'') = [''Tokyo'']
   \<and> extract_location_from_text sample_nlp ''Set my location to Tokyo'' = Some ''Tokyo''
   \<and> fst (is_location_setting sample_nlp ''Set my location to Osaka.'')
   \<and> \<not> truthy (snd (is_location_setting sample_nlp ''Set my location to Osaka.''))
   \<and> handle_location_setting sample_nlp WriteOk ''Set my location to Osaka.'' None
       = ((True, ''i've set your location to osaka.''),
          Some (Document (JObject [(''location'', JStr ''osaka'')])))
   \<and> fst (is_location_setting sample_nlp ''Set my location to Tokyo'')
   \<and> \<not> truthy (snd (is_location_setting sample_nlp ''Set my location to Tokyo''))
   \<and> handle_location_setting sample_nlp WriteOk ''Set my location to Tokyo'' None
       = ((True, ''i've set your location to Tokyo.''),
          Some (Document (JObject [(''location'', JStr ''Tokyo'')])))"
proof -
  have e1: "place_entities sample_nlp (brain sample_nlp ''Set my location to Osaka.'') = []"
    by code_simp
  have e2: "extract_location_from_text sample_nlp ''Set my location to Osaka.'' = Some ''osaka''"
    by code_simp
  have e3: "place_entities sample_nlp (brain sample_nlp ''Set my location to Tokyo'') = [''Tokyo'']"
    by code_simp
  have e4: "extract_location_from_text sample_nlp ''Set my location to Tokyo'' = Some ''Tokyo''"
    by code_simp
  have e5: "fst (is_location_setting sample_nlp ''Set my location to Osaka.'')"
    by code_simp
  have e6: "\<not> truthy (snd (is_location_setting sample_nlp ''Set my location to Osaka.''))"
    by code_simp
  have e7: "fst (is_location_setting sample_nlp ''Set my location to Tokyo'')"
    by code_simp
  have e8: "\<not> truthy (snd (is_location_setting sample_nlp ''Set my location to Tokyo''))"
    by code_simp
  note osaka = fallback_location_lower_cased
    [of sample_nlp "''Set my location to Osaka.''" "''osaka''" "''x''" "[]" None]
  note tokyo = fallback_location_lower_cased
    [of sample_nlp "''Set my location to Tokyo''" "''Tokyo''" "''Tokyo''" "[]" None]
  from osaka e1 e2 have l: "py_lower ''osaka'' = ''osaka''" by blast
  from osaka e5 e6 e2 have h1: "handle_location_setting sample_nlp WriteOk ''Set my location to Osaka.'' None
       = ((True, ''i've set your location to osaka.''),
          Some (Document (JObject [(''location'', JStr ''osaka'')])))" by simp
  from tokyo e7 e8 e4 have h2: "handle_location_setting sample_nlp WriteOk ''Set my location to Tokyo'' None
       = ((True, ''i've set your location to Tokyo.''),
          Some (Document (JObject [(''location'', JStr ''Tokyo'')])))" by simp
  from e1 e2 e3 e4 e5 e6 e7 e8 l h1 h2 show ?thesis by blast
qed

subsection \<open>Upcoming hours in the weather block\<close>

lemma add_hour_line: "add_hour t h = t @ hour_line h"
  by (simp add: add_hour_def hour_line_def hour_entry_def rain_chance_def rain_suffix_def)

lemma foldl_add_hour:
  "foldl add_hour t hs = t @ concat (map hour_line hs)"
  by (induction hs arbitrary: t) (simp_all add: add_hour_line)

lemma current_weather_hours:
  "current_weather (w\<lparr>wd_upcoming_hours := x\<rparr>) = current_weather w"
  by (simp add: current_weather_def)

lemma rain_suffix_not_empty: "rain_suffix n \<noteq> []"
  by (simp add: rain_suffix_def)

lemma format_with_hours:
  assumes up: "wd_upcoming_hours w = Some (x # xs)"
  shows "format_weather_data_for_prompt (Some w)
          = format_weather_data_for_prompt (Some (w\<lparr>wd_upcoming_hours := None\<rparr>))
            @ newline @ ''Upcoming Hours:'' @ newline @ concat (map hour_line (x # xs))"
  by (cases "wd_today_high w"; cases "wd_today_low w"; cases "wd_sunrise w"; cases "wd_sunset w")
     (simp_all add: format_weather_data_for_prompt_def up foldl_add_hour add_hour_line
        current_weather_hours Let_def)

text \<open>
  C7. For every upcoming hour that \<open>format_weather_data_for_prompt\<close> renders, the line
  carries the suffix \<open> (N% chance of rain)\<close> exactly when the hour's \<open>chance_of_rain\<close> is
  greater than zero, and is the bare entry exactly when it is not; the block of
  upcoming hours is the sequence of these lines.
\<close>

theorem rain_suffix_iff_positive:
  "(add_hour t h = t @ hour_entry h @ rain_suffix (h_chance_of_rain h) @ newline)
     = (h_chance_of_rain h > 0)
   \<and> (add_hour t h = t @ hour_entry h @ newline) = (\<not> h_chance_of_rain h > 0)
   \<and> (wd_upcoming_hours w = Some hs \<and> hs \<noteq> [] \<longrightarrow>
        format_weather_data_for_prompt (Some w)
          = format_weather_data_for_prompt (Some (w\<lparr>wd_upcoming_hours := None\<rparr>))
            @ newline @ ''Upcoming Hours:'' @ newline @ concat (map hour_line hs))"
proof (intro conjI impI)
  show "(add_hour t h = t @ hour_entry h @ rain_suffix (h_chance_of_rain h) @ newline)
     = (h_chance_of_rain h > 0)"
    using rain_suffix_not_empty [of "h_chance_of_rain h"]
    by (simp add: add_hour_def hour_entry_def rain_chance_def rain_suffix_def)
  show "(add_hour t h = t @ hour_entry h @ newline) = (\<not> h_chance_of_rain h > 0)"
    using rain_suffix_not_empty [of "h_chance_of_rain h"]
    by (simp add: add_hour_def hour_entry_def rain_chance_def rain_suffix_def)
next
  assume a: "wd_upcoming_hours w = Some hs \<and> hs \<noteq> []"
  then obtain x xs where hs: "hs = x # xs" by (cases hs) auto
  with a have up: "wd_upcoming_hours w = Some (x # xs)" by simp
  from format_with_hours [OF up]
  show "format_weather_data_for_prompt (Some w)
          = format_weather_data_for_prompt (Some (w\<lparr>wd_upcoming_hours := None\<rparr>))
            @ newline @ ''Upcoming Hours:'' @ newline @ concat (map hour_line hs)"
    unfolding hs .
qed

theorem rain_suffix_iff_positive_witness:
  "h_chance_of_rain wet_hour > 0
   \<and> add_hour [] wet_hour
       = ''- 15:00: 44'' @ [CHR 0xB0] @ ''F, Light rain (65% chance of rain)'' @ [CHR 0x0A]
   \<and> \<not> h_chance_of_rain dry_hour > 0
   \<and> add_hour [] dry_hour = ''- 12:00: 43'' @ [CHR 0xB0] @ ''F, Sunny'' @ [CHR 0x0A]
   \<and> wd_upcoming_hours sample_weather = Some [dry_hour, wet_hour]
   \<and> format_weather_data_for_prompt (Some sample_weather)
       = format_weather_data_for_prompt (Some (sample_weather\<lparr>wd_upcoming_hours := None\<rparr>))
         @ newline @ ''Upcoming Hours:'' @ newline @ hour_line dry_hour @ hour_line wet_hour"
proof -
  have wet: "h_chance_of_rain wet_hour > 0" by (simp add: wet_hour_def)
  have dry: "\<not> h_chance_of_rain dry_hour > 0" by (simp add: dry_hour_def)
  have up: "wd_upcoming_hours sample_weather = Some [dry_hour, wet_hour]"
    by (simp add: sample_weather_def)
  have wet_text: "[] @ hour_entry wet_hour @ rain_suffix (h_chance_of_rain wet_hour) @ newline
       = ''- 15:00: 44'' @ [CHR 0xB0] @ ''F, Light rain (65% chance of rain)'' @ [CHR 0x0A]"
    by code_simp
  have dry_text: "[] @ hour_entry dry_hour @ newline
       = ''- 12:00: 43'' @ [CHR 0xB0] @ ''F, Sunny'' @ [CHR 0x0A]"
    by code_simp
  note w = rain_suffix_iff_positive [of "[]" wet_hour sample_weather "[dry_hour, wet_hour]"]
  note d = rain_suffix_iff_positive [of "[]" dry_hour sample_weather "[dry_hour, wet_hour]"]
  from w wet have "add_hour [] wet_hour
       = [] @ hour_entry wet_hour @ rain_suffix (h_chance_of_rain wet_hour) @ newline"
    by blast
  with wet_text have a1: "add_hour [] wet_hour
       = ''- 15:00: 44'' @ [CHR 0xB0] @ ''F, Light rain (65% chance of rain)'' @ [CHR 0x0A]"
    by (simp only:)
  from d dry have "add_hour [] dry_hour = [] @ hour_entry dry_hour @ newline"
    by blast
  with dry_text have a2: "add_hour [] dry_hour = ''- 12:00: 43'' @ [CHR 0xB0] @ ''F, Sunny'' @ [CHR 0x0A]"
    by (simp only:)
  from w up have a3: "format_weather_data_for_prompt (Some sample_weather)
       = format_weather_data_for_prompt (Some (sample_weather\<lparr>wd_upcoming_hours := None\<rparr>))
         @ newline @ ''Upcoming Hours:'' @ newline @ hour_line dry_hour @ hour_line wet_hour"
    by simp
  from wet dry up a1 a2 a3 show ?thesis by blast
qed

subsection \<open>An empty transcript\<close>

text \<open>
  C8. When the recognition service succeeds with an empty transcript,
  \<open>listen_to_microphone\<close> makes no call after the status update
  \<open>processing speech...\<close>: neither the AI-response callback nor the restart callback
  nor a further status update. The worker returns, and that status stays.
\<close>

theorem empty_transcript_is_silent:
  "mic env = MicOpens \<and> adjust env = Adjusted \<and> \<not> stop_before_listening env
   \<and> heard env = Captured True \<and> \<not> stop_after_capture env \<and> recognized env = Recognized []
   \<longrightarrow> listen_to_microphone True env
        = [UpdateStatus ''listening...'' ''listening'',
           UpdateStatus ''processing speech...'' ''processing'']"
  by (simp add: listen_to_microphone_def)

theorem empty_transcript_is_silent_witness:
  "mic silent_capture = MicOpens \<and> adjust silent_capture = Adjusted
   \<and> \<not> stop_before_listening silent_capture \<and> heard silent_capture = Captured True
   \<and> \<not> stop_after_capture silent_capture \<and> recognized silent_capture = Recognized []
   \<and> listen_to_microphone True silent_capture
        = [UpdateStatus ''listening...'' ''listening'',
           UpdateStatus ''processing speech...'' ''processing'']"
  using empty_transcript_is_silent [of silent_capture]
  by (simp add: silent_capture_def)

subsection \<open>The wake-word loop and the detection flag\<close>

lemma silent_pass_keeps_running:
  assumes "wake_word_thread s = Some w" "ww_phase w = Looping"
    "ww_detecting_wake_word w" "\<not> stop_event s"
  shows "run_session silent_pass s = s"
proof -
  have t: "worker_test s = set_phase Listening s"
    using assms by (simp add: worker_test_def)
  have "wake_word_thread (set_phase Listening s) = Some (w\<lparr>ww_phase := Listening\<rparr>)"
    using assms by (simp add: set_phase_def)
  then have h: "worker_hear Silence (set_phase Listening s)
                  = set_phase Looping (set_phase Listening s)"
    by (simp add: worker_hear_def)
  have "w\<lparr>ww_phase := Looping\<rparr> = w"
    using assms(2) by (cases w) simp
  then have "set_phase Looping (set_phase Listening s) = s"
    using assms(1) by (simp add: set_phase_def)
  with t h show ?thesis by (simp add: run_session_def silent_pass_def)
qed

lemma run_session_append:
  "run_session (xs @ ys) s = run_session ys (run_session xs s)"
  by (simp add: run_session_def)

lemma silent_passes:
  assumes "wake_word_thread s = Some w" "ww_phase w = Looping"
    "ww_detecting_wake_word w" "\<not> stop_event s"
  shows "run_session (concat (replicate n silent_pass)) s = s"
proof (induction n)
  case 0
  then show ?case by (simp add: run_session_def)
next
  case (Suc n)
  have "run_session (concat (replicate (Suc n) silent_pass)) s
        = run_session (concat (replicate n silent_pass)) (run_session silent_pass s)"
    by (simp add: run_session_append)
  with Suc silent_pass_keeps_running [OF assms] show ?case by simp
qed

lemma stop_signal_ends_loop:
  assumes "wake_word_thread s = Some w" "ww_phase w = Looping" "stop_event s"
  shows "\<not> wake_loop_running (worker_test s)"
  using assms
  by (simp add: worker_test_def after_loop_def set_phase_def update_status_def
      wake_loop_running_def Let_def)

lemma cleared_flag_session_state:
  "\<not> detecting_wake_word (run_session cleared_flag_session (initial_app ''google''))"
  "\<not> stop_event (run_session cleared_flag_session (initial_app ''google''))"
  "wake_word_thread (run_session cleared_flag_session (initial_app ''google''))
     = Some \<lparr>ww_wake_word = ''google'', ww_keywords_path = ''/tmp/tmpdir/keywords.list'',
             ww_detecting_wake_word = True, ww_phase = Looping\<rparr>"
  by (simp_all add: cleared_flag_session_def run_session_def initial_app_def
      action_toggle_wake_word_def action_toggle_listening_def start_wake_word_detection_def
      start_direct_listening_def write_keywords_def spawn_wake_worker_def spawn_listen_worker_def
      update_status_def add_class_def remove_class_def worker_setup_def worker_test_def
      worker_hear_def set_phase_def path_join_def Let_def py_lower_def py_lower_char_def)

text \<open>
  C3. The loop of \<open>detect_wake_word\<close> is meant to end when the controller clears
  \<open>detecting_wake_word\<close>. In the session above the controller has cleared the flag and
  the stop signal is not set, yet the worker is still in its loop after any number of
  further passes: the loop tests the value its argument had when the thread was
  created.
\<close>

theorem cleared_flag_leaves_wake_loop_running:
  "\<not> detecting_wake_word (run_session cleared_flag_session (initial_app ''google''))
   \<and> \<not> stop_event (run_session cleared_flag_session (initial_app ''google''))
   \<and> wake_loop_running
        (run_session (cleared_flag_session @ concat (replicate n silent_pass))
           (initial_app ''google''))"
proof -
  let ?s = "run_session cleared_flag_session (initial_app ''google'')"
  let ?w = "\<lparr>ww_wake_word = ''google'', ww_keywords_path = ''/tmp/tmpdir/keywords.list'',
             ww_detecting_wake_word = True, ww_phase = Looping\<rparr>"
  have w: "wake_word_thread ?s = Some ?w" by (rule cleared_flag_session_state(3))
  have "run_session (concat (replicate n silent_pass)) ?s = ?s"
    by (rule silent_passes [OF w]) (simp_all add: cleared_flag_session_state(2))
  then have "wake_loop_running
        (run_session (cleared_flag_session @ concat (replicate n silent_pass))
           (initial_app ''google''))"
    by (simp add: run_session_append wake_loop_running_def w)
  with cleared_flag_session_state(1,2) show ?thesis by blast
qed

end
